theory Spec2Isabelle
  imports Complex_Main "HOL-Library.AList" "HOL-Library.Log_Nat"
begin

section \<open>The room engine of the trivia-racing server\<close>

text \<open>
  The server keeps one \<open>GameRoom\<close> object per room. Its methods mutate the object,
  push a snapshot to the clients (\<open>emitState\<close>) and use the timers of the JavaScript
  runtime (\<open>setInterval\<close>, \<open>clearInterval\<close>, \<open>setTimeout\<close>). The model passes the
  state explicitly: the record \<open>world\<close> holds the fields of the class and, beside them,
  what the runtime remembers for the room: the snapshots sent so far, the interval
  timers that are running, and the number of \<open>setTimeout\<close> callbacks that are scheduled
  and have not run.

  JavaScript numbers are IEEE doubles (binary64). \<open>timeLeft\<close>, \<open>currentIndex\<close>, \<open>score\<close>
  and \<open>streak\<close> only ever hold small integers, on which double arithmetic is exact; they
  are modelled by \<open>int\<close>. \<open>progress\<close> takes fractional values, since multiples of 0.8
  enter it. A double is modelled by the rational number that is its value, and every
  addition and multiplication of the scoring rule rounds its exact result to the nearest
  double, a tie to the even significand, as the machine does (\<open>fadd\<close>, \<open>fmul\<close>). The
  literal \<open>0.8\<close> is the double nearest to 8/10. Infinities and NaN are not modelled: a
  sum or product of the scoring rule overflows only for a countdown or a streak beyond
  \<open>10^300\<close>.

  Text outside ASCII (the avatars, the ellipsis of two questions) is given by its
  UTF-8 bytes.
\<close>

subsection \<open>Types\<close>

record Player =
  id_Player :: string
  name :: string
  color :: string
  avatar :: "string option"   \<comment> \<open>\<open>None\<close> is JavaScript's \<open>undefined\<close>\<close>
  progress :: rat
  score :: int
  streak :: int
  socketId :: "string option"

record MCQ =
  id_MCQ :: string
  q_MCQ :: string
  choices :: "string list"
  answerIndex :: int

record GameStateWire =
  started_w :: bool
  timeLeft_w :: int
  question_w :: "MCQ option"   \<comment> \<open>\<open>None\<close> is \<open>null\<close>\<close>
  players_w :: "Player list"
  finished_w :: "string list"

subsection \<open>Static content\<close>

definition QUESTIONS :: "MCQ list" where
  "QUESTIONS =
    [\<lparr>id_MCQ = ''q1'', q_MCQ = ''What does the server do in this game?'',
      choices = [''Draws cars only'', ''Keeps time, tallies scores, referees the race'',
                 ''Picks random'', ''Streams music''],
      answerIndex = 1\<rparr>,
     \<lparr>id_MCQ = ''q2'', q_MCQ = ''A correct answer does what?'',
      choices = [''Brakes'', ''Teleports back'', ''Moves forward'', ''Changes color''],
      answerIndex = 2\<rparr>,
     \<lparr>id_MCQ = ''q3'', q_MCQ = ''How many winners are crowned?'',
      choices = [''1'', ''2'', ''3'', ''Unlimited''],
      answerIndex = 2\<rparr>,
     \<lparr>id_MCQ = ''q4'', q_MCQ = ''Fair play means'' @ [CHR 0xE2, CHR 0x80, CHR 0xA6],
      choices = [''Share answers'', ''Honest answers only'', ''Turn off timer'',
                 ''Use two browsers''],
      answerIndex = 1\<rparr>,
     \<lparr>id_MCQ = ''q5'',
      q_MCQ = ''Speed bonus triggers when'' @ [CHR 0xE2, CHR 0x80, CHR 0xA6],
      choices = [''Answer quickly'', ''Refresh page'', ''Skip'', ''Change avatar''],
      answerIndex = 0\<rparr>]"

definition AVATARS :: "string list" where
  "AVATARS =
    [[CHR 0xF0, CHR 0x9F, CHR 0x9A, CHR 0x97],
     [CHR 0xF0, CHR 0x9F, CHR 0x8F, CHR 0x8E, CHR 0xEF, CHR 0xB8, CHR 0x8F],
     [CHR 0xF0, CHR 0x9F, CHR 0x9A, CHR 0x99],
     [CHR 0xF0, CHR 0x9F, CHR 0x9A, CHR 0x95],
     [CHR 0xF0, CHR 0x9F, CHR 0x9A, CHR 0x93],
     [CHR 0xF0, CHR 0x9F, CHR 0x9B, CHR 0xBB],
     [CHR 0xF0, CHR 0x9F, CHR 0x9A, CHR 0x90],
     [CHR 0xF0, CHR 0x9F, CHR 0x9A, CHR 0x98]]"

definition TRACK_LEN :: rat where
  "TRACK_LEN = 100"

definition BASE_PUSH :: rat where
  "BASE_PUSH = 18"

subsection \<open>Double arithmetic\<close>

text \<open>
  The rounding works on a fraction \<open>a / b\<close> of integers with \<open>b > 0\<close>. \<open>rne_div a b\<close> is
  the integer nearest to \<open>a / b\<close>, a tie going to the even one.
\<close>

definition rne_div :: "int \<Rightarrow> int \<Rightarrow> int" where
  "rne_div a b =
     (let n = a div b; r = a mod b
      in if 2 * r < b then n else if b < 2 * r then n + 1 else if even n then n else n + 1)"

text \<open>
  The binary exponent of \<open>a / b\<close> for positive \<open>a\<close> and \<open>b\<close>: the \<open>e\<close> with
  \<open>2^e \<le> a / b < 2^(e+1)\<close>. The bit lengths of \<open>a\<close> and \<open>b\<close> fix it up to one, and a
  comparison decides.
\<close>

definition ilog2 :: "int \<Rightarrow> int \<Rightarrow> int" where
  "ilog2 a b =
     (let d = bitlen a - bitlen b
      in if (if 0 \<le> d then b * 2 ^ nat d \<le> a else b \<le> a * 2 ^ nat (- d)) then d
         else d - 1)"

text \<open>
  The double nearest to \<open>a / b\<close>. With \<open>e\<close> the binary exponent of \<open>|a / b|\<close>, the doubles
  around \<open>a / b\<close> are the multiples of \<open>2^k\<close> for \<open>k = e - 52\<close> (53 significant bits), and
  for \<open>k = -1074\<close> where \<open>e - 52\<close> is below that (subnormal numbers); \<open>a / b\<close> is rounded to
  the nearest multiple, a tie to the even one.
\<close>

definition dbl_of :: "int \<Rightarrow> int \<Rightarrow> rat" where
  "dbl_of a b =
     (if a = 0 then 0
      else let k = max (ilog2 \<bar>a\<bar> b - 52) (- 1074)
           in if 0 \<le> k then of_int (rne_div a (b * 2 ^ nat k) * 2 ^ nat k)
              else Fract (rne_div (a * 2 ^ nat (- k)) b) (2 ^ nat (- k)))"

text \<open>The double nearest to a rational number.\<close>

definition dbl :: "rat \<Rightarrow> rat" where
  "dbl x = (case quotient_of x of (a, b) \<Rightarrow> dbl_of a b)"

text \<open>The operators \<open>+\<close> and \<open>*\<close> of JavaScript on two doubles.\<close>

definition fadd :: "rat \<Rightarrow> rat \<Rightarrow> rat" where
  "fadd x y = dbl (x + y)"

definition fmul :: "rat \<Rightarrow> rat \<Rightarrow> rat" where
  "fmul x y = dbl (x * y)"

subsection \<open>Helpers of the source\<close>

text \<open>\<open>clamp(n, min, max) = Math.max(min, Math.min(max, n))\<close>\<close>

definition clamp :: "rat \<Rightarrow> rat \<Rightarrow> rat \<Rightarrow> rat" where
  "clamp n lo hi = max lo (min hi n)"

text \<open>
  \<open>Math.round\<close>: the nearest integer, a half rounded upwards. It is exact on the value
  of its argument.
\<close>

definition js_round :: "rat \<Rightarrow> int" where
  "js_round x = \<lfloor>x + 1 / 2\<rfloor>"

text \<open>
  \<open>QUESTIONS[i]\<close>: the question at position \<open>i\<close>, \<open>undefined\<close> (here \<open>None\<close>) when
  \<open>i\<close> is out of range.
\<close>

definition question_at :: "int \<Rightarrow> MCQ option" where
  "question_at i =
     (if 0 \<le> i \<and> i < int (length QUESTIONS) then Some (QUESTIONS ! nat i) else None)"

text \<open>The decimal digits of a number, as a template literal prints it.\<close>

fun show_nat :: "nat \<Rightarrow> string" where
  "show_nat n =
     (if n < 10 then [char_of (48 + n)]
      else show_nat (n div 10) @ [char_of (48 + n mod 10)])"

declare show_nat.simps [simp del]

subsection \<open>The room and its runtime\<close>

record GameRoom =
  id_Room :: string
  started :: bool
  currentIndex :: int
  timeLeft :: int
  players :: "(string \<times> Player) list"
    \<comment> \<open>a JavaScript \<open>Map\<close>: keys are unique, enumeration is in insertion order\<close>
  finishedOrder :: "string list"
  interval :: "nat option"
    \<comment> \<open>the handle of the last \<open>setInterval\<close>; it stays in the field after \<open>clearInterval\<close>\<close>
  answered :: "string set"

record world = GameRoom +
  emitted :: "GameStateWire list"
    \<comment> \<open>the snapshots broadcast so far, oldest first\<close>
  timers :: "nat set"
    \<comment> \<open>the handles of the interval timers that are running\<close>
  fresh :: nat
    \<comment> \<open>the handle the next \<open>setInterval\<close> returns\<close>
  timeouts :: nat
    \<comment> \<open>how many \<open>setTimeout(() => this.next(), 400)\<close> callbacks are scheduled and have not run\<close>

definition new_room :: "string \<Rightarrow> world" where
  "new_room rid =
     \<lparr>id_Room = rid, started = False, currentIndex = 0, timeLeft = 20, players = [],
      finishedOrder = [], interval = None, answered = {},
      emitted = [], timers = {}, fresh = 0, timeouts = 0\<rparr>"

definition wire :: "world \<Rightarrow> GameStateWire" where
  "wire s =
     \<lparr>started_w = started s,
      timeLeft_w = timeLeft s,
      question_w = question_at (currentIndex s),
      players_w = map snd (players s),
      finished_w = take 3 (finishedOrder s)\<rparr>"

definition emitState :: "world \<Rightarrow> world" where
  "emitState s = s\<lparr>emitted := emitted s @ [wire s]\<rparr>"

text \<open>\<open>if (this.interval) clearInterval(this.interval)\<close>\<close>

definition clearIntervalIf :: "world \<Rightarrow> world" where
  "clearIntervalIf s =
     (case interval s of None \<Rightarrow> s | Some h \<Rightarrow> s\<lparr>timers := timers s - {h}\<rparr>)"

text \<open>
  The three calls of \<open>Math.random()\<close> in \<open>join\<close> are inputs of the model: the
  string \<open>uid()\<close> returns, and the two doubles in \<open>[0, 1)\<close> that choose the default
  name and the avatar.
\<close>

record rnd =
  uid :: string
  name_rnd :: rat
  avatar_rnd :: rat

definition join :: "rnd \<Rightarrow> string \<Rightarrow> string \<Rightarrow> string \<Rightarrow> world \<Rightarrow> Player \<times> world" where
  "join r sock nm col s =
     (let player =
        \<lparr>id_Player = uid r,
         name = (if nm = [] then ''Racer-'' @ show_nat (nat \<lfloor>fmul (name_rnd r) 99\<rfloor>) else nm),
         color = col,
         avatar = (let i = \<lfloor>fmul (avatar_rnd r) (of_nat (length AVATARS))\<rfloor>
                   in if 0 \<le> i \<and> i < int (length AVATARS) then Some (AVATARS ! nat i)
                      else None),
         progress = 0,
         score = 0,
         streak = 0,
         socketId = Some sock\<rparr>
      in (player, emitState (s\<lparr>players := AList.update (id_Player player) player (players s)\<rparr>)))"

definition start :: "world \<Rightarrow> world" where
  "start s =
     (if started s then s
      else emitState
        (s\<lparr>started := True, currentIndex := 0, timeLeft := 20, finishedOrder := [],
           answered := {}, interval := Some (fresh s),
           timers := insert (fresh s) (timers s), fresh := Suc (fresh s)\<rparr>))"

definition reset :: "world \<Rightarrow> world" where
  "reset s =
     emitState (clearIntervalIf
       (s\<lparr>started := False, currentIndex := 0, timeLeft := 20, finishedOrder := [],
          answered := {},
          players := map (\<lambda>(k, p). (k, p\<lparr>progress := 0, score := 0, streak := 0\<rparr>))
                         (players s)\<rparr>))"

definition nextQ :: "world \<Rightarrow> world" where
  "nextQ s =
     emitState
       (if currentIndex s < int (length QUESTIONS) - 1
        then s\<lparr>currentIndex := currentIndex s + 1, timeLeft := 20, answered := {}\<rparr>
        else clearIntervalIf (s\<lparr>started := False\<rparr>))"

definition answer :: "string \<Rightarrow> int \<Rightarrow> world \<Rightarrow> world" where
  "answer playerId choiceIndex s =
     (if \<not> started s then s
      else case question_at (currentIndex s) of
        None \<Rightarrow> s
      | Some q \<Rightarrow>
         (if playerId \<in> answered s then s
          else (case map_of (players s) playerId of
            None \<Rightarrow> s
          | Some p \<Rightarrow>
              let s1 = s\<lparr>answered := insert playerId (answered s)\<rparr> in
              if choiceIndex \<noteq> answerIndex q
              then emitState
                     (s1\<lparr>players := AList.update playerId (p\<lparr>streak := 0\<rparr>) (players s1)\<rparr>)
              else
                let speedBonus = fmul (of_int (max 0 (timeLeft s1 - 5))) (dbl (8 / 10));
                    push = fadd (fadd BASE_PUSH speedBonus) (fmul (of_int (streak p)) 4);
                    p1 = p\<lparr>progress := clamp (fadd (progress p) push) 0 TRACK_LEN\<rparr>;
                    p2 = p1\<lparr>score := score p1
                               + js_round (fadd (fadd 100 (fmul speedBonus 5))
                                                (fmul (of_int (streak p1)) 10))\<rparr>;
                    p3 = p2\<lparr>streak := streak p2 + 1\<rparr>;
                    s2 = s1\<lparr>players := AList.update playerId p3 (players s1)\<rparr>;
                    s3 = (if progress p3 \<ge> 100 \<and> id_Player p3 \<notin> set (finishedOrder s2)
                             \<and> length (finishedOrder s2) < 3
                          then s2\<lparr>finishedOrder := finishedOrder s2 @ [id_Player p3]\<rparr>
                          else s2)
                in emitState s3)))"

definition tick :: "world \<Rightarrow> world" where
  "tick s =
     (if \<not> started s then s
      else
        let s1 = emitState (s\<lparr>timeLeft := max 0 (timeLeft s - 1)\<rparr>)
        in if timeLeft s1 = 0 then s1\<lparr>timeouts := Suc (timeouts s1)\<rparr> else s1)"

text \<open>A scheduled callback runs: it calls \<open>next()\<close>.\<close>

definition fire :: "world \<Rightarrow> world" where
  "fire s = (if timeouts s = 0 then s else nextQ (s\<lparr>timeouts := timeouts s - 1\<rparr>))"

subsection \<open>Runs of the room\<close>

text \<open>
  The events of a room: the calls the socket handlers make (\<open>room:join\<close>, \<open>race:start\<close>,
  \<open>race:reset\<close>, \<open>race:next\<close>, \<open>answer:submit\<close>), a tick of the interval timer, and the
  run of a scheduled callback. A run puts no order on them: a tick may come at any
  moment (\<open>tick\<close> returns at once when the room is not started), so the runs cover every
  execution of the server. The choice index of an answer is an integer; any other value
  a client sends differs from every \<open>answerIndex\<close>, as an integer outside the choices does.
\<close>

datatype event =
    Join rnd string string string
  | Start
  | Reset
  | Next
  | Answer string int
  | Tick
  | Fire

fun step :: "event \<Rightarrow> world \<Rightarrow> world" where
  "step (Join r sock nm col) s = snd (join r sock nm col s)"
| "step Start s = start s"
| "step Reset s = reset s"
| "step Next s = nextQ s"
| "step (Answer playerId choiceIndex) s = answer playerId choiceIndex s"
| "step Tick s = tick s"
| "step Fire s = fire s"

fun run :: "event list \<Rightarrow> world \<Rightarrow> world" where
  "run [] s = s"
| "run (e # es) s = run es (step e s)"

text \<open>
  \<open>joins\<close> runs a sequence of \<open>join()\<close> calls and collects the players the calls
  return, in the order of the calls.
\<close>

fun joins :: "(rnd \<times> string \<times> string \<times> string) list \<Rightarrow> world \<Rightarrow> Player list \<times> world" where
  "joins [] s = ([], s)"
| "joins ((r, sock, nm, col) # js) s =
     (let (p, s1) = join r sock nm col s;
          (ps, s2) = joins js s1
      in (p # ps, s2))"

subsection \<open>Properties of a room\<close>

text \<open>
  The three numbers a correct answer computes when the countdown stands at \<open>t\<close> and the
  streak at \<open>k\<close>: \<open>speedBonus\<close>, \<open>push\<close> and what \<open>Math.round\<close> adds to the score, each
  with the operations of the source in their order.
\<close>

definition speedBonus_of :: "int \<Rightarrow> rat" where
  "speedBonus_of t = fmul (of_int (max 0 (t - 5))) (dbl (8 / 10))"

definition push_of :: "int \<Rightarrow> int \<Rightarrow> rat" where
  "push_of t k = fadd (fadd 18 (speedBonus_of t)) (fmul (of_int k) 4)"

definition gain_of :: "int \<Rightarrow> int \<Rightarrow> int" where
  "gain_of t k = js_round (fadd (fadd 100 (fmul (speedBonus_of t) 5)) (fmul (of_int k) 10))"

text \<open>
  The player a correct answer leaves behind: the three assignments to \<open>p.progress\<close>,
  \<open>p.score\<close> and \<open>p.streak\<close> in \<open>answer\<close>.
\<close>

definition scored :: "int \<Rightarrow> Player \<Rightarrow> Player" where
  "scored t p =
     p\<lparr>progress := clamp (fadd (progress p) (push_of t (streak p))) 0 100,
       score := score p + gain_of t (streak p),
       streak := streak p + 1\<rparr>"

definition player_ok :: "Player \<Rightarrow> bool" where
  "player_ok p \<longleftrightarrow> 0 \<le> progress p \<and> progress p \<le> 100 \<and> 0 \<le> score p \<and> 0 \<le> streak p"

definition players_ok :: "world \<Rightarrow> bool" where
  "players_ok s \<longleftrightarrow> list_all (\<lambda>(k, p). player_ok p) (players s)"

text \<open>Every player is stored under its own id.\<close>

definition keys_ok :: "world \<Rightarrow> bool" where
  "keys_ok s \<longleftrightarrow> list_all (\<lambda>(k, p). id_Player p = k) (players s)"

text \<open>The index points at a question, and so did it whenever a snapshot was sent.\<close>

definition index_ok :: "world \<Rightarrow> bool" where
  "index_ok s \<longleftrightarrow>
     0 \<le> currentIndex s \<and> currentIndex s \<le> int (length QUESTIONS) - 1
     \<and> list_all (\<lambda>w. question_w w \<noteq> None) (emitted s)"

definition time_ok :: "world \<Rightarrow> bool" where
  "time_ok s \<longleftrightarrow> 0 \<le> timeLeft s \<and> timeLeft s \<le> 20"

text \<open>The interval timer of the room runs exactly while the room is started.\<close>

definition timer_ok :: "world \<Rightarrow> bool" where
  "timer_ok s \<longleftrightarrow>
     timers s = (if started s then set_option (interval s) else {})
     \<and> (started s \<longrightarrow> interval s \<noteq> None)"

subsection \<open>The finish order of a round, as the specification words it\<close>

text \<open>
  The specification describes the finish order as the first three players to cross the
  line, in the order they crossed. \<open>crossers\<close> follows these words, read for one round,
  and not the code: it lists, without any cap, the players whose accepted correct answer
  in the current round left them at a progress of 100 or more, each once, in the order
  of these answers. A round begins with a \<open>start()\<close> that takes effect or with a
  \<open>reset()\<close>; both empty the list. The progress after the answer is the double that the
  scoring rule \<open>scored\<close> gives, so a player whom rounding leaves just below 100 has not
  crossed.
\<close>

definition crosses :: "string \<Rightarrow> int \<Rightarrow> world \<Rightarrow> bool" where
  "crosses pid c s \<longleftrightarrow>
     started s \<and> pid \<notin> answered s
     \<and> (case question_at (currentIndex s) of None \<Rightarrow> False | Some q \<Rightarrow> c = answerIndex q)
     \<and> (case map_of (players s) pid of
          None \<Rightarrow> False | Some p \<Rightarrow> progress (scored (timeLeft s) p) \<ge> 100)"

fun crossed_step :: "event \<Rightarrow> world \<Rightarrow> string list \<Rightarrow> string list" where
  "crossed_step Start s cs = (if started s then cs else [])"
| "crossed_step Reset s cs = []"
| "crossed_step (Answer pid c) s cs =
     (if crosses pid c s \<and> pid \<notin> set cs then cs @ [pid] else cs)"
| "crossed_step e s cs = cs"

fun crossers :: "event list \<Rightarrow> world \<Rightarrow> string list \<Rightarrow> string list" where
  "crossers [] s cs = cs"
| "crossers (e # es) s cs = crossers es (step e s) (crossed_step e s cs)"

definition first_three :: "world \<Rightarrow> string list \<Rightarrow> bool" where
  "first_three s cs \<longleftrightarrow> keys_ok s \<and> distinct cs \<and> finishedOrder s = take 3 cs"

subsection \<open>Concrete rooms\<close>

definition racer :: rnd where
  "racer = \<lparr>uid = ''k3j9x0a'', name_rnd = 1 / 2, avatar_rnd = 1 / 4\<rparr>"

text \<open>A second draw of \<open>uid()\<close> that gives the string of the first.\<close>

definition rival :: rnd where
  "rival = \<lparr>uid = ''k3j9x0a'', name_rnd = 1 / 3, avatar_rnd = 3 / 4\<rparr>"

text \<open>One player has joined and the round has begun.\<close>

definition warm :: world where
  "warm = run [Join racer ''sock1'' ''Ann'' ''#00f6ff'', Start] (new_room ''main'')"

text \<open>
  The player answers the first three questions at once and correctly, which takes the
  car to the end of the track, misses the fourth, and stands before the fifth.
\<close>

definition lap :: "event list" where
  "lap = [Join racer ''sock1'' ''Ann'' ''#00f6ff'', Start,
          Answer ''k3j9x0a'' 1, Next, Answer ''k3j9x0a'' 2, Next, Answer ''k3j9x0a'' 2, Next,
          Answer ''k3j9x0a'' 0, Next]"


text \<open>The player has answered the first question correctly, and the second is up.\<close>

definition skip_q2 :: "event list" where
  "skip_q2 = [Join racer ''sock1'' ''Ann'' ''#00f6ff'', Start, Answer ''k3j9x0a'' 1, Next]"

definition at_q2 :: world where
  "at_q2 = run skip_q2 (new_room ''main'')"

text \<open>The player has answered the first question, which is still the current one.\<close>

definition answered_q1 :: world where
  "answered_q1 = answer ''k3j9x0a'' 1 warm"

text \<open>A draw of \<open>uid()\<close> that differs from the one of \<open>racer\<close>.\<close>

definition newcomer :: rnd where
  "newcomer = \<lparr>uid = ''p07qzm2'', name_rnd = 98 / 99, avatar_rnd = 7 / 8\<rparr>"

text \<open>
  Four players answer the first three questions at once and correctly; all four reach the
  end of the track with the third answer, the last to join first.
\<close>

definition derby :: "event list" where
  "derby =
     [Join \<lparr>uid = ''aaaaaaa'', name_rnd = 0, avatar_rnd = 0\<rparr> ''sock1'' ''Ann'' ''#00f6ff'',
      Join \<lparr>uid = ''bbbbbbb'', name_rnd = 0, avatar_rnd = 0\<rparr> ''sock2'' ''Bob'' ''#00f6ff'',
      Join \<lparr>uid = ''ccccccc'', name_rnd = 0, avatar_rnd = 0\<rparr> ''sock3'' ''Cyd'' ''#00f6ff'',
      Join \<lparr>uid = ''ddddddd'', name_rnd = 0, avatar_rnd = 0\<rparr> ''sock4'' ''Dee'' ''#00f6ff'',
      Start,
      Answer ''aaaaaaa'' 1, Answer ''bbbbbbb'' 1, Answer ''ccccccc'' 1, Answer ''ddddddd'' 1, Next,
      Answer ''aaaaaaa'' 2, Answer ''bbbbbbb'' 2, Answer ''ccccccc'' 2, Answer ''ddddddd'' 2, Next,
      Answer ''ddddddd'' 2, Answer ''ccccccc'' 2, Answer ''bbbbbbb'' 2, Answer ''aaaaaaa'' 2]"

text \<open>A started room without players, after twenty ticks: the countdown has run out.\<close>

definition time_up :: world where
  "time_up = run (Start # replicate 20 Tick) (new_room ''main'')"

subsection \<open>What a concrete room shows\<close>

text \<open>The players of a room with their progress, score and streak.\<close>

definition scoreboard :: "world \<Rightarrow> (string \<times> rat \<times> int \<times> int) list" where
  "scoreboard s = map (\<lambda>(k, p). (k, progress p, score p, streak p)) (players s)"

definition summary ::
  "world \<Rightarrow> bool \<times> int \<times> int \<times> (string \<times> rat \<times> int \<times> int) list \<times> string list
     \<times> string set \<times> nat set" where
  "summary s =
     (started s, currentIndex s, timeLeft s, scoreboard s, finishedOrder s, answered s,
      timers s)"

text \<open>The player answers the first question after one tick, at countdown 19.\<close>

definition late_answer :: "event list" where
  "late_answer = [Join racer ''sock1'' ''Ann'' ''#00f6ff'', Start, Tick, Answer ''k3j9x0a'' 1]"

text \<open>The player answers four questions correctly, at the countdowns 5, 6, 8 and 6.\<close>

definition near_miss :: "event list" where
  "near_miss =
     [Join racer ''sock1'' ''Ann'' ''#00f6ff'', Start] @ replicate 15 Tick
     @ [Answer ''k3j9x0a'' 1, Next] @ replicate 14 Tick
     @ [Answer ''k3j9x0a'' 2, Next] @ replicate 12 Tick
     @ [Answer ''k3j9x0a'' 2, Next] @ replicate 14 Tick
     @ [Answer ''k3j9x0a'' 1]"

text \<open>
  The player answers the first question correctly at countdown 6, misses the second, and
  stands before the third with streak 0 and countdown 20.
\<close>

definition slow_start :: "event list" where
  "slow_start =
     [Join racer ''sock1'' ''Ann'' ''#00f6ff'', Start] @ replicate 14 Tick
     @ [Answer ''k3j9x0a'' 1, Next, Answer ''k3j9x0a'' 0, Next]"

text \<open>
  A first round takes Ann to the end of the track and ends with \<open>next()\<close> on the last
  question. Bob joins, and the room is started again without a reset.
\<close>

definition second_start :: "event list" where
  "second_start =
     [Join racer ''sock1'' ''Ann'' ''#00f6ff'', Start,
      Answer ''k3j9x0a'' 1, Next, Answer ''k3j9x0a'' 2, Next, Answer ''k3j9x0a'' 2,
      Next, Next, Next,
      Join newcomer ''sock2'' ''Bob'' ''#ff00aa'', Start]"

text \<open>In the second round Bob reaches the end of the track, and then Ann answers.\<close>

definition rematch :: "event list" where
  "rematch =
     second_start
     @ [Answer ''p07qzm2'' 1, Next, Answer ''p07qzm2'' 2, Next, Answer ''p07qzm2'' 2,
        Answer ''k3j9x0a'' 2]"

section \<open>Lemmas on the operations\<close>

lemma list_all_update:
  "list_all P al \<Longrightarrow> P (k, v) \<Longrightarrow> list_all P (AList.update k v al)"
  by (induction al) auto

lemma run_induct:
  assumes "P s" and "\<And>e t. P t \<Longrightarrow> P (step e t)"
  shows "P (run es s)"
  using assms(1)
proof (induction es arbitrary: s)
  case Nil then show ?case by simp
next
  case (Cons e es) then show ?case by (simp add: assms(2))
qed

lemma answer_noop:
  "\<not> started s \<or> question_at (currentIndex s) = None \<or> playerId \<in> answered s \<or> map_of (players s) playerId = None
   \<Longrightarrow> answer playerId c s = s"
  by (auto simp: answer_def split: option.splits)

lemma answer_wrong:
  assumes "started s" "question_at (currentIndex s) = Some q" "pid \<notin> answered s"
    "map_of (players s) pid = Some p" "c \<noteq> answerIndex q"
  shows "answer pid c s =
    emitState (s\<lparr>answered := insert pid (answered s),
                  players := AList.update pid (p\<lparr>streak := 0\<rparr>) (players s)\<rparr>)"
  using assms by (simp add: answer_def)

lemma answer_right:
  assumes "started s" "question_at (currentIndex s) = Some q" "pid \<notin> answered s"
    "map_of (players s) pid = Some p" "c = answerIndex q"
  shows "answer pid c s =
    emitState (s\<lparr>answered := insert pid (answered s),
                  players := AList.update pid (scored (timeLeft s) p) (players s),
                  finishedOrder :=
                    (if progress (scored (timeLeft s) p) \<ge> 100 \<and> id_Player p \<notin> set (finishedOrder s)
                        \<and> length (finishedOrder s) < 3
                     then finishedOrder s @ [id_Player p] else finishedOrder s)\<rparr>)"
  using assms
  by (simp add: answer_def scored_def push_of_def gain_of_def speedBonus_of_def Let_def
      BASE_PUSH_def TRACK_LEN_def)

lemma answer_cases:
  obtains (noop) "answer pid c s = s"
  | (wrong) q p where "started s" "question_at (currentIndex s) = Some q" "pid \<notin> answered s"
      "map_of (players s) pid = Some p" "c \<noteq> answerIndex q"
  | (right) q p where "started s" "question_at (currentIndex s) = Some q" "pid \<notin> answered s"
      "map_of (players s) pid = Some p" "c = answerIndex q"
  using answer_noop[of s pid c] by (cases "question_at (currentIndex s)"; cases "map_of (players s) pid") auto

lemma rne_div_nonneg: "0 \<le> a \<Longrightarrow> 0 < b \<Longrightarrow> 0 \<le> rne_div a b"
  by (simp add: rne_div_def Let_def pos_imp_zdiv_nonneg_iff)

lemma dbl_of_nonneg: "0 \<le> a \<Longrightarrow> 0 < b \<Longrightarrow> 0 \<le> dbl_of a b"
  by (simp add: dbl_of_def Let_def rne_div_nonneg zero_le_Fract_iff)

lemma dbl_nonneg:
  assumes "0 \<le> x"
  shows "0 \<le> dbl x"
proof -
  obtain a b where q: "quotient_of x = (a, b)" by (cases "quotient_of x")
  then have "0 < b" by (rule quotient_of_denom_pos)
  moreover from q have "x = of_int a / of_int b" by (rule quotient_of_div)
  with assms \<open>0 < b\<close> have "0 \<le> a" by (simp add: zero_le_divide_iff)
  ultimately show ?thesis by (simp add: dbl_def q dbl_of_nonneg)
qed

lemma fadd_nonneg: "0 \<le> x \<Longrightarrow> 0 \<le> y \<Longrightarrow> 0 \<le> fadd x y"
  by (simp add: fadd_def dbl_nonneg)

lemma fmul_nonneg: "0 \<le> x \<Longrightarrow> 0 \<le> y \<Longrightarrow> 0 \<le> fmul x y"
  by (simp add: fmul_def dbl_nonneg)

lemma speedBonus_nonneg: "0 \<le> speedBonus_of t"
  by (simp add: speedBonus_of_def fmul_nonneg dbl_nonneg)

lemma gain_nonneg: "0 \<le> k \<Longrightarrow> 0 \<le> gain_of t k"
proof -
  assume "0 \<le> k"
  then have "0 \<le> fadd (fadd 100 (fmul (speedBonus_of t) 5)) (fmul (of_int k) 10)"
    by (intro fadd_nonneg fmul_nonneg speedBonus_nonneg) simp_all
  then show ?thesis by (simp add: gain_of_def js_round_def)
qed

lemma scored_ok: "player_ok p \<Longrightarrow> player_ok (scored t p)"
  unfolding player_ok_def scored_def
  by (simp add: clamp_def gain_nonneg)

lemma join_players_ok: "players_ok s \<Longrightarrow> players_ok (snd (join r sock nm col s))"
  by (simp add: players_ok_def join_def emitState_def Let_def list_all_update player_ok_def)

lemma start_players: "players (start s) = players s"
  by (simp add: start_def emitState_def)

lemma nextQ_players: "players (nextQ s) = players s"
  by (simp add: nextQ_def emitState_def clearIntervalIf_def split: option.splits)

lemma tick_players: "players (tick s) = players s"
  by (simp add: tick_def emitState_def Let_def)

lemma fire_players: "players (fire s) = players s"
  by (simp add: fire_def nextQ_players)

lemma reset_players_ok: "players_ok (reset s)"
  by (simp add: reset_def emitState_def clearIntervalIf_def players_ok_def player_ok_def
      list_all_iff split: option.splits prod.splits)

lemma map_of_list_all: "list_all P al \<Longrightarrow> map_of al k = Some v \<Longrightarrow> P (k, v)"
  by (auto simp: list_all_iff dest: map_of_SomeD)

lemma answer_players_ok:
  assumes "players_ok s"
  shows "players_ok (answer pid c s)"
proof (cases pid c s rule: answer_cases)
  case noop
  with assms show ?thesis by simp
next
  case (wrong q p)
  from assms wrong(4) have "player_ok p"
    unfolding players_ok_def by (auto dest: map_of_list_all)
  then have "player_ok (p\<lparr>streak := 0\<rparr>)" by (simp add: player_ok_def)
  with assms show ?thesis
    by (simp add: answer_wrong[OF wrong] players_ok_def emitState_def list_all_update)
next
  case (right q p)
  from assms right(4) have "player_ok p"
    unfolding players_ok_def by (auto dest: map_of_list_all)
  then have "player_ok (scored (timeLeft s) p)" by (rule scored_ok)
  with assms show ?thesis
    by (simp add: answer_right[OF right] players_ok_def emitState_def list_all_update)
qed

lemma players_ok_same: "players t = players s \<Longrightarrow> players_ok s \<Longrightarrow> players_ok t"
  by (simp add: players_ok_def)

lemma step_players_ok:
  assumes "players_ok s"
  shows "players_ok (step e s)"
  using assms
  by (cases e)
    (simp_all add: join_players_ok reset_players_ok answer_players_ok
      players_ok_same[OF start_players] players_ok_same[OF nextQ_players]
      players_ok_same[OF tick_players] players_ok_same[OF fire_players])

lemma run_players_ok: "players_ok (run es (new_room rid))"
  by (rule run_induct) (simp_all add: step_players_ok, simp add: players_ok_def new_room_def)

lemma question_at_Some: "0 \<le> i \<Longrightarrow> i \<le> int (length QUESTIONS) - 1 \<Longrightarrow> question_at i = Some (QUESTIONS ! nat i)"
  by (simp add: question_at_def)

lemma length_QUESTIONS: "length QUESTIONS = 5"
  by (simp add: QUESTIONS_def)

lemma emit_index_ok: "index_ok s \<Longrightarrow> index_ok (emitState s)"
  by (simp add: index_ok_def emitState_def wire_def question_at_def)

lemma index_ok_same:
  "currentIndex t = currentIndex s \<Longrightarrow> emitted t = emitted s \<Longrightarrow> index_ok s \<Longrightarrow> index_ok t"
  by (simp add: index_ok_def)

lemma clear_fields [simp]:
  "currentIndex (clearIntervalIf s) = currentIndex s"
  "emitted (clearIntervalIf s) = emitted s"
  "started (clearIntervalIf s) = started s"
  "timeLeft (clearIntervalIf s) = timeLeft s"
  "players (clearIntervalIf s) = players s"
  "finishedOrder (clearIntervalIf s) = finishedOrder s"
  "answered (clearIntervalIf s) = answered s"
  "interval (clearIntervalIf s) = interval s"
  "timeouts (clearIntervalIf s) = timeouts s"
  "fresh (clearIntervalIf s) = fresh s"
  by (simp_all add: clearIntervalIf_def split: option.splits)

lemma nextQ_index_ok: "index_ok s \<Longrightarrow> index_ok (nextQ s)"
  unfolding nextQ_def
  by (rule emit_index_ok) (auto simp: index_ok_def)

lemma answer_index_ok:
  assumes "index_ok s" shows "index_ok (answer pid c s)"
proof (cases pid c s rule: answer_cases)
  case noop with assms show ?thesis by simp
next
  case (wrong q p)
  show ?thesis unfolding answer_wrong[OF wrong]
    by (rule emit_index_ok) (use assms in \<open>simp add: index_ok_def\<close>)
next
  case (right q p)
  show ?thesis unfolding answer_right[OF right]
    by (rule emit_index_ok) (use assms in \<open>simp add: index_ok_def\<close>)
qed

lemma step_index_ok:
  assumes "index_ok s" shows "index_ok (step e s)"
proof (cases e)
  case (Join r sock nm col)
  show ?thesis unfolding Join step.simps join_def Let_def snd_conv
    by (rule emit_index_ok) (use assms in \<open>simp add: index_ok_def\<close>)
next
  case Start
  have "index_ok (start s)"
  proof (cases "started s")
    case True with assms show ?thesis by (simp add: start_def)
  next
    case False
    then show ?thesis unfolding start_def
      by (simp, intro emit_index_ok) (use assms in \<open>simp add: index_ok_def length_QUESTIONS\<close>)
  qed
  with Start show ?thesis by simp
next
  case Reset
  have "index_ok (reset s)" unfolding reset_def
    by (rule emit_index_ok) (use assms in \<open>simp add: index_ok_def length_QUESTIONS\<close>)
  with Reset show ?thesis by simp
next
  case Next
  with assms show ?thesis by (simp add: nextQ_index_ok)
next
  case (Answer pid c)
  with assms show ?thesis by (simp add: answer_index_ok)
next
  case Tick
  have "index_ok (tick s)"
  proof (cases "started s")
    case False with assms show ?thesis by (simp add: tick_def)
  next
    case True
    have "index_ok (emitState (s\<lparr>timeLeft := max 0 (timeLeft s - 1)\<rparr>))"
      by (rule emit_index_ok) (use assms in \<open>simp add: index_ok_def\<close>)
    then show ?thesis using True
      by (auto simp: tick_def Let_def elim: index_ok_same[rotated 2])
  qed
  with Tick show ?thesis by simp
next
  case Fire
  have "index_ok (s\<lparr>timeouts := timeouts s - 1\<rparr>)"
    using assms by (simp add: index_ok_def)
  then have "index_ok (fire s)"
    using assms by (simp add: fire_def nextQ_index_ok)
  with Fire show ?thesis by simp
qed

lemma run_index_ok: "index_ok (run es (new_room rid))"
proof (rule run_induct)
  show "index_ok (new_room rid)" by (simp add: index_ok_def new_room_def length_QUESTIONS)
qed (rule step_index_ok)

lemma emit_fields [simp]:
  "currentIndex (emitState s) = currentIndex s"
  "started (emitState s) = started s"
  "timeLeft (emitState s) = timeLeft s"
  "players (emitState s) = players s"
  "finishedOrder (emitState s) = finishedOrder s"
  "answered (emitState s) = answered s"
  "interval (emitState s) = interval s"
  "timers (emitState s) = timers s"
  "timeouts (emitState s) = timeouts s"
  "fresh (emitState s) = fresh s"
  "emitted (emitState s) = emitted s @ [wire s]"
  by (simp_all add: emitState_def)

lemma answer_frame:
  "started (answer pid c s) = started s"
  "currentIndex (answer pid c s) = currentIndex s"
  "timeLeft (answer pid c s) = timeLeft s"
  "interval (answer pid c s) = interval s"
  "timers (answer pid c s) = timers s"
  "timeouts (answer pid c s) = timeouts s"
  "fresh (answer pid c s) = fresh s"
  by (cases pid c s rule: answer_cases; simp add: answer_wrong answer_right)+

lemma step_time_ok: "time_ok s \<Longrightarrow> time_ok (step e s)"
  by (cases e)
    (auto simp: time_ok_def join_def Let_def start_def reset_def nextQ_def tick_def fire_def
      answer_frame)

lemma run_time_ok: "time_ok (run es (new_room rid))"
proof (rule run_induct)
  show "time_ok (new_room rid)" by (simp add: time_ok_def new_room_def)
qed (rule step_time_ok)

lemma nextQ_timer_ok: "timer_ok s \<Longrightarrow> timer_ok (nextQ s)"
  by (auto simp: timer_ok_def nextQ_def clearIntervalIf_def split: option.splits if_splits)

lemma step_timer_ok: "timer_ok s \<Longrightarrow> timer_ok (step e s)"
proof (cases e)
  case Next
  then show "timer_ok s \<Longrightarrow> ?thesis" by (simp add: nextQ_timer_ok)
next
  case Fire
  assume "timer_ok s"
  then have "timer_ok (s\<lparr>timeouts := timeouts s - 1\<rparr>)" by (simp add: timer_ok_def)
  with Fire \<open>timer_ok s\<close> show ?thesis by (simp add: fire_def nextQ_timer_ok)
qed (auto simp: timer_ok_def join_def Let_def start_def reset_def tick_def answer_frame
       clearIntervalIf_def split: option.splits if_splits)

lemma run_timer_ok: "timer_ok (run es (new_room rid))"
proof (rule run_induct)
  show "timer_ok (new_room rid)" by (simp add: timer_ok_def new_room_def)
qed (rule step_timer_ok)

lemma answer_keys_ok:
  assumes "keys_ok s" shows "keys_ok (answer pid c s)"
proof (cases pid c s rule: answer_cases)
  case noop with assms show ?thesis by simp
next
  case (wrong q p)
  from assms wrong(4) have "id_Player p = pid"
    unfolding keys_ok_def by (auto dest: map_of_list_all)
  with assms show ?thesis
    by (simp add: answer_wrong[OF wrong] keys_ok_def list_all_update)
next
  case (right q p)
  from assms right(4) have "id_Player p = pid"
    unfolding keys_ok_def by (auto dest: map_of_list_all)
  with assms show ?thesis
    by (simp add: answer_right[OF right] keys_ok_def list_all_update scored_def)
qed

lemma step_keys_ok: 
  assumes "keys_ok s" shows "keys_ok (step e s)"
proof (cases e)
  case (Answer pid c)
  with assms show ?thesis by (simp add: answer_keys_ok)
next
  case Reset
  with assms show ?thesis
    by (auto simp: keys_ok_def reset_def list_all_iff)
qed (use assms in \<open>simp_all add: keys_ok_def join_def Let_def list_all_update
       start_players nextQ_players tick_players fire_players\<close>)

lemma take3_snoc:
  "distinct cs \<Longrightarrow> 
   take 3 (cs @ [x]) = (if x \<notin> set (take 3 cs) \<and> length (take 3 cs) < 3 then take 3 cs @ [x] else take 3 cs)" if "x \<notin> set cs"
  using that by (auto simp: min_def dest: in_set_takeD)

lemma answer_first_three:
  assumes "first_three s cs"
  shows "first_three (answer pid c s) (crossed_step (Answer pid c) s cs)"
proof (cases pid c s rule: answer_cases)
  case noop
  have "\<not> crosses pid c s"
  proof
    assume c: "crosses pid c s"
    then obtain q p where *: "started s" "question_at (currentIndex s) = Some q"
      "pid \<notin> answered s" "map_of (players s) pid = Some p"
      by (auto simp: crosses_def split: option.splits)
    have "pid \<in> answered (answer pid c s)"
      by (cases "c = answerIndex q") (simp_all add: answer_wrong[OF *] answer_right[OF *])
    with noop * show False by simp
  qed
  with assms noop show ?thesis by simp
next
  case (wrong q p)
  then have "\<not> crosses pid c s" by (simp add: crosses_def)
  moreover have "keys_ok (answer pid c s)"
    using assms by (simp add: first_three_def answer_keys_ok)
  moreover have "finishedOrder (answer pid c s) = finishedOrder s"
    by (simp add: answer_wrong[OF wrong])
  ultimately show ?thesis
    using assms by (simp add: first_three_def)
next
  case (right q p)
  from assms have k: "keys_ok s" and d: "distinct cs" and f: "finishedOrder s = take 3 cs"
    by (simp_all add: first_three_def)
  from k right(4) have id: "id_Player p = pid"
    unfolding keys_ok_def by (auto dest: map_of_list_all)
  have cr: "crosses pid c s \<longleftrightarrow> progress (scored (timeLeft s) p) \<ge> 100"
    using right by (simp add: crosses_def)
  have "keys_ok (answer pid c s)" using k by (rule answer_keys_ok)
  moreover have "distinct (crossed_step (Answer pid c) s cs)" using d by simp
  moreover have "finishedOrder (answer pid c s) = take 3 (crossed_step (Answer pid c) s cs)"
  proof (cases "progress (scored (timeLeft s) p) \<ge> 100 \<and> pid \<notin> set cs")
    case True
    then show ?thesis
      using take3_snoc[OF _ d, of pid] by (simp add: answer_right[OF right] id f cr)
  next
    case False
    then show ?thesis
      by (auto simp add: answer_right[OF right] id f cr dest: in_set_takeD)
  qed
  ultimately show ?thesis by (simp add: first_three_def)
qed

lemma step_first_three:
  assumes "first_three s cs"
  shows "first_three (step e s) (crossed_step e s cs)"
proof (cases e)
  case (Answer pid c)
  with answer_first_three[OF assms, of pid c] show ?thesis
    by (simp del: crossed_step.simps)
next
  case (Join r sock nm col)
  with assms step_keys_ok[of s e] show ?thesis
    by (simp add: first_three_def join_def Let_def)
next
  case Start
  with assms step_keys_ok[of s e] show ?thesis
    by (simp add: first_three_def start_def)
next
  case Reset
  with assms step_keys_ok[of s e] show ?thesis
    by (simp add: first_three_def reset_def)
next
  case Next
  with assms step_keys_ok[of s e] show ?thesis
    by (simp add: first_three_def nextQ_def)
next
  case Tick
  with assms step_keys_ok[of s e] show ?thesis
    by (simp add: first_three_def tick_def Let_def)
next
  case Fire
  with assms step_keys_ok[of s e] show ?thesis
    by (simp add: first_three_def fire_def nextQ_def)
qed

lemma run_first_three:
  "first_three s cs \<Longrightarrow> first_three (run es s) (crossers es s cs)"
  by (induction es arbitrary: s cs) (simp_all add: step_first_three)

lemma first_three_new: "first_three (new_room rid) []"
  by (simp add: first_three_def keys_ok_def new_room_def)

lemma tick_zero:
  assumes "started s" "timeLeft s = 0"
  shows "started (tick s) \<and> timeLeft (tick s) = 0 \<and> timeouts (tick s) = Suc (timeouts s)"
  using assms by (simp add: tick_def Let_def)

lemma join_id: "id_Player (fst (join r sock nm col s)) = uid r"
  by (simp add: join_def Let_def)

lemma joins_ids: "map id_Player (fst (joins js s)) = map (\<lambda>(r, sock, nm, col). uid r) js"
proof (induction js arbitrary: s)
  case Nil
  show ?case by simp
next
  case (Cons j js)
  obtain r sock nm col where j: "j = (r, sock, nm, col)" by (cases j)
  show ?case
    unfolding j by (simp add: split_beta Let_def join_id Cons.IH)
qed

subsection \<open>The concrete rooms, evaluated\<close>

lemma run_append: "run (xs @ ys) s = run ys (run xs s)"
  by (induction xs arbitrary: s) simp_all

lemma summaryD:
  assumes "summary s = (st, i, t, sb, f, an, tm)"
  shows "started s = st" "currentIndex s = i" "timeLeft s = t" "scoreboard s = sb"
    "finishedOrder s = f" "answered s = an" "timers s = tm"
  using assms by (simp_all add: summary_def)




lemma at_q2_summary:
  "summary at_q2 = (True, 1, 20, [(''k3j9x0a'', 30, 160, 1)], [], {}, {0})"
  by code_simp



subsection \<open>The doubles of the code\<close>

text \<open>
  Some roundings: the literal \<open>0.8\<close>, a third of either sign, and two ties between
  neighbouring doubles above \<open>2^53\<close>, which go to the even significand.
\<close>

lemma dbl_examples:
  "dbl (8 / 10) = 3602879701896397 / 4503599627370496"
  "dbl (1 / 3) = 6004799503160661 / 18014398509481984"
  "dbl (- (1 / 3)) = - (6004799503160661 / 18014398509481984)"
  "dbl 9007199254740993 = 9007199254740992"
  "dbl 9007199254740995 = 9007199254740996"
  "dbl 100 = 100"
  by code_simp+

text \<open>
  The model stores the doubles that the program stores. A correct answer at countdown
  19 leaves the progress \<open>29.200000000000003\<close>, which is \<open>2054767329987789 / 2^46\<close>, and
  not 146/5.
\<close>

lemma late_answer_double:
  "scoreboard (run late_answer (new_room ''main''))
     = [(''k3j9x0a'', 2054767329987789 / 70368744177664, 156, 1)]"
  by code_simp

text \<open>
  Correct answers at the countdowns 5, 6, 8 and 6 leave the progress
  \<open>99.99999999999999\<close>, which is \<open>7036874417766399 / 2^46\<close>: the sum in exact arithmetic
  is 100, the player of the program has not finished.
\<close>

lemma near_miss_double:
  "summary (run near_miss (new_room ''main''))
     = (True, 3, 6, [(''k3j9x0a'', 7036874417766399 / 70368744177664, 480, 4)], [],
        {''k3j9x0a''}, {0})"
  by code_simp

text \<open>
  From the progress \<open>18.8\<close> a push of 30 leads to the double \<open>48.8\<close>, which lies below
  the exact sum.
\<close>

lemma slow_start_double:
  "summary (run slow_start (new_room ''main''))
     = (True, 2, 20, [(''k3j9x0a'', 5291729562160333 / 281474976710656, 104, 0)], [], {}, {0})"
  "fadd (5291729562160333 / 281474976710656) 30 = 3433994715870003 / 70368744177664"
  "(3433994715870003 / 70368744177664 :: rat) < 5291729562160333 / 281474976710656 + 30"
  by code_simp+

lemma derby_summary:
  "summary (run derby (new_room ''main''))
     = (True, 2, 20,
        [(''aaaaaaa'', 100, 510, 3), (''bbbbbbb'', 100, 510, 3), (''ccccccc'', 100, 510, 3),
         (''ddddddd'', 100, 510, 3)],
        [''ddddddd'', ''ccccccc'', ''bbbbbbb''],
        {''aaaaaaa'', ''bbbbbbb'', ''ccccccc'', ''ddddddd''}, {0})"
  by code_simp


section \<open>The claims\<close>

subsection \<open>C1: a correct answer\<close>




subsection \<open>C2: what holds of every player\<close>

text \<open>
  C2, as the code has it. In every room state that a sequence of join, start, reset,
  next, answer and tick operations (and scheduled advances) reaches from a new room,
  every player has a progress in \<open>[0, 100]\<close>, a score of at least 0 and a streak of at
  least 0. An incorrect answer that is accepted (the room is started, the player is
  known and has not answered the current question) leaves the player's streak at 0. A
  question that passes without the player's answer does not touch the streak: \<open>next()\<close>,
  \<open>tick()\<close> and the scheduled advance leave all players as they are.
\<close>

theorem players_invariant:
  "list_all (\<lambda>(k, p). 0 \<le> progress p \<and> progress p \<le> 100 \<and> 0 \<le> score p \<and> 0 \<le> streak p)
      (players (run es (new_room rid)))
   \<and> (started s \<and> question_at (currentIndex s) = Some q \<and> map_of (players s) pid = Some p
        \<and> pid \<notin> answered s \<and> c \<noteq> answerIndex q
      \<longrightarrow> map_option streak (map_of (players (answer pid c s)) pid) = Some 0)
   \<and> players (nextQ s) = players s \<and> players (tick s) = players s \<and> players (fire s) = players s"
proof -
  have "players_ok (run es (new_room rid))" by (rule run_players_ok)
  then have "list_all (\<lambda>(k, p). 0 \<le> progress p \<and> progress p \<le> 100 \<and> 0 \<le> score p \<and> 0 \<le> streak p)
      (players (run es (new_room rid)))"
    by (simp add: players_ok_def player_ok_def)
  moreover have "map_option streak (map_of (players (answer pid c s)) pid) = Some 0"
    if "started s" "question_at (currentIndex s) = Some q" "pid \<notin> answered s"
      "map_of (players s) pid = Some p" "c \<noteq> answerIndex q"
    by (simp add: answer_wrong[OF that] update_conv')
  ultimately show ?thesis
    by (simp add: nextQ_players tick_players fire_players)
qed

text \<open>
  The theorem at the run \<open>lap\<close> and at the room \<open>at_q2\<close>, where the player has streak 1
  and gives a wrong answer to the second question.
\<close>

theorem players_invariant_witness:
  "list_all (\<lambda>(k, p). 0 \<le> progress p \<and> progress p \<le> 100 \<and> 0 \<le> score p \<and> 0 \<le> streak p)
      (players (run lap (new_room ''main'')))
   \<and> (started at_q2 \<and> question_at (currentIndex at_q2) = Some (QUESTIONS ! 1)
      \<and> map_of (players at_q2) ''k3j9x0a'' = Some (snd (hd (players at_q2)))
      \<and> ''k3j9x0a'' \<notin> answered at_q2 \<and> 0 \<noteq> answerIndex (QUESTIONS ! 1))
   \<and> streak (snd (hd (players at_q2))) = 1
   \<and> map_option streak (map_of (players (answer ''k3j9x0a'' 0 at_q2)) ''k3j9x0a'') = Some 0
   \<and> players (nextQ at_q2) = players at_q2"
proof -
  have h: "started at_q2 \<and> question_at (currentIndex at_q2) = Some (QUESTIONS ! 1)
      \<and> map_of (players at_q2) ''k3j9x0a'' = Some (snd (hd (players at_q2)))
      \<and> ''k3j9x0a'' \<notin> answered at_q2 \<and> 0 \<noteq> answerIndex (QUESTIONS ! 1)"
    by code_simp
  have g: "streak (snd (hd (players at_q2))) = 1" by code_simp
  from players_invariant[of lap "''main''" at_q2 "QUESTIONS ! 1" "''k3j9x0a''"
      "snd (hd (players at_q2))" 0] h g
  show ?thesis by blast
qed

text \<open>
  C2 as it is stated fails for a missing answer. In the room \<open>at_q2\<close> the second
  question is up, the player has streak 1 and has not answered; \<open>next()\<close> moves to the
  third question, and the streak is still 1, not 0.
\<close>

theorem missed_question_counterexample:
  "started at_q2 \<and> currentIndex at_q2 = 1 \<and> ''k3j9x0a'' \<notin> answered at_q2
   \<and> map_option streak (map_of (players at_q2) ''k3j9x0a'') = Some 1
   \<and> currentIndex (nextQ at_q2) = 2
   \<and> map_option streak (map_of (players (nextQ at_q2)) ''k3j9x0a'') = Some 1
   \<and> map_option streak (map_of (players (nextQ at_q2)) ''k3j9x0a'') \<noteq> Some 0"
  by code_simp

subsection \<open>C3: ticks when the countdown has run out\<close>

text \<open>
  C3, as the code has it. A tick on a started room whose countdown is 0 leaves the
  countdown at 0 and the room started, and schedules one more automatic advance: \<open>n\<close>
  such ticks in a row schedule \<open>n\<close> advances, one per tick. In every reachable room state
  the countdown is at least 0.
\<close>

theorem tick_at_zero:
  "(started s \<and> timeLeft s = 0 \<longrightarrow>
      started ((tick ^^ n) s) \<and> timeLeft ((tick ^^ n) s) = 0
      \<and> timeouts ((tick ^^ n) s) = timeouts s + n)
   \<and> 0 \<le> timeLeft (run es (new_room rid))"
proof -
  have "started ((tick ^^ n) s) \<and> timeLeft ((tick ^^ n) s) = 0
      \<and> timeouts ((tick ^^ n) s) = timeouts s + n" if "started s" "timeLeft s = 0"
    using that by (induction n) (simp_all add: tick_zero)
  moreover have "0 \<le> timeLeft (run es (new_room rid))"
    using run_time_ok[of es rid] by (simp add: time_ok_def)
  ultimately show ?thesis by simp
qed

text \<open>
  The theorem at the room \<open>time_up\<close> and two ticks.
\<close>

theorem tick_at_zero_witness:
  "started time_up \<and> timeLeft time_up = 0
   \<and> started ((tick ^^ 2) time_up) \<and> timeLeft ((tick ^^ 2) time_up) = 0
   \<and> timeouts ((tick ^^ 2) time_up) = timeouts time_up + 2
   \<and> 0 \<le> timeLeft (run lap (new_room ''main''))"
proof -
  have h: "started time_up \<and> timeLeft time_up = 0" by code_simp
  with tick_at_zero[of time_up 2 lap "''main''"] show ?thesis by simp
qed

text \<open>
  C3 as it is stated fails in its second half. In the room \<open>time_up\<close> the countdown is 0
  and one advance is scheduled; after one more tick two are scheduled, after two more
  ticks three: every tick at countdown 0 schedules an advance of its own.
\<close>

theorem tick_at_zero_counterexample:
  "started time_up \<and> timeLeft time_up = 0 \<and> timeouts time_up = 1
   \<and> timeLeft (tick time_up) = 0 \<and> timeouts (tick time_up) = 2
   \<and> timeLeft (tick (tick time_up)) = 0 \<and> timeouts (tick (tick time_up)) = 3"
  by code_simp

subsection \<open>C4: the ids that join returns\<close>

text \<open>
  C4, as the code has it. The id that a \<open>join()\<close> returns is the string its call of
  \<open>uid()\<close> drew, whatever the room holds. So the ids a sequence of \<open>join()\<close> calls returns
  are pairwise distinct exactly when the draws of \<open>uid()\<close> are pairwise distinct; \<open>join\<close>
  neither checks nor prevents a repeated draw.
\<close>

theorem join_ids:
  "map id_Player (fst (joins js s)) = map (\<lambda>(r, sock, nm, col). uid r) js
   \<and> (distinct (map id_Player (fst (joins js s)))
        \<longleftrightarrow> distinct (map (\<lambda>(r, sock, nm, col). uid r) js))"
  by (simp add: joins_ids)

text \<open>
  The theorem at two joins with different draws.
\<close>

theorem join_ids_witness:
  "map id_Player (fst (joins
      [(racer, ''sock1'', ''Ann'', ''#00f6ff''), (newcomer, ''sock2'', [], ''#ff00aa'')]
      (new_room ''main''))) = [''k3j9x0a'', ''p07qzm2'']
   \<and> distinct (map id_Player (fst (joins
      [(racer, ''sock1'', ''Ann'', ''#00f6ff''), (newcomer, ''sock2'', [], ''#ff00aa'')]
      (new_room ''main''))))"
proof -
  have "map (\<lambda>(r, sock, nm, col). uid r)
      [(racer, ''sock1'', ''Ann'', ''#00f6ff''), (newcomer, ''sock2'', [], ''#ff00aa'')]
    = [''k3j9x0a'', ''p07qzm2'']"
    by (simp add: racer_def newcomer_def)
  with join_ids[of "[(racer, ''sock1'', ''Ann'', ''#00f6ff''), (newcomer, ''sock2'', [], ''#ff00aa'')]"
      "new_room ''main''"]
  show ?thesis by simp
qed

text \<open>
  C4 as it is stated fails when \<open>uid()\<close> draws the same string twice: both calls of
  \<open>join()\<close> return the id \<open>k3j9x0a\<close>.
\<close>

theorem join_ids_counterexample:
  "\<not> distinct (map id_Player (fst (joins
        [(racer, ''sock1'', ''Ann'', ''#00f6ff''), (rival, ''sock2'', ''Bob'', ''#ff00aa'')]
        (new_room ''main''))))"
  by code_simp

subsection \<open>C5: the finish order\<close>

text \<open>
  C5, as the code has it. In every reachable room state the finish order has at most
  three entries and no id twice. It is kept per round: a \<open>start()\<close> that takes effect and
  \<open>reset()\<close> empty it, and from there on it is the first three entries of \<open>crossers\<close>, the
  players whose accepted correct answer in this round left them at a progress of 100 or
  more, in the order of these answers. A player who stands at 100 from an earlier round
  is not in the list when the round starts, and enters it with the next correct answer.
  A snapshot shows the whole list.
\<close>

theorem finish_order:
  "length (finishedOrder (run es (new_room rid))) \<le> 3
   \<and> distinct (finishedOrder (run es (new_room rid)))
   \<and> distinct (crossers es (new_room rid) [])
   \<and> finishedOrder (run es (new_room rid)) = take 3 (crossers es (new_room rid) [])
   \<and> finished_w (wire (run es (new_room rid))) = finishedOrder (run es (new_room rid))"
  using run_first_three[OF first_three_new, of es rid]
  by (simp add: first_three_def wire_def)

text \<open>
  The theorem at the run \<open>derby\<close>: four players reach progress 100, the first three to
  cross are recorded in the order they crossed.
\<close>

theorem finish_order_witness:
  "scoreboard (run derby (new_room ''main''))
     = [(''aaaaaaa'', 100, 510, 3), (''bbbbbbb'', 100, 510, 3), (''ccccccc'', 100, 510, 3),
        (''ddddddd'', 100, 510, 3)]
   \<and> finishedOrder (run derby (new_room ''main'')) = [''ddddddd'', ''ccccccc'', ''bbbbbbb'']
   \<and> length (finishedOrder (run derby (new_room ''main''))) \<le> 3
   \<and> distinct (finishedOrder (run derby (new_room ''main'')))
   \<and> finishedOrder (run derby (new_room ''main'')) = take 3 (crossers derby (new_room ''main'') [])
   \<and> take 3 (crossers derby (new_room ''main'') []) = [''ddddddd'', ''ccccccc'', ''bbbbbbb'']"
proof -
  note d = summaryD[OF derby_summary]
  from finish_order[of derby "''main''"] d(4,5) show ?thesis by simp
qed

text \<open>
  C5 as it is stated fails across rounds. Ann reaches progress 100 in a first round,
  which ends; Bob joins, and the room is started again. Ann still stands at 100, and the
  finish order is empty. Bob then reaches 100 and Ann answers after him: the list names
  Bob before Ann, whose progress reached 100 first.
\<close>

theorem finish_order_counterexample:
  "summary (run second_start (new_room ''main''))
     = (True, 0, 20, [(''k3j9x0a'', 100, 510, 3), (''p07qzm2'', 0, 0, 0)], [], {}, {1})
   \<and> finishedOrder (run rematch (new_room ''main'')) = [''p07qzm2'', ''k3j9x0a'']"
  by code_simp

subsection \<open>C6: answers that are ignored\<close>

text \<open>
  C6. \<open>answer(playerId, choiceIndex)\<close> leaves the room, its players and the list of
  snapshots sent exactly as they were whenever the room is not started, there is no
  current question, the player has already answered the current question, or the
  player id is unknown. So a second answer of the same player to the same question
  changes nothing, its progress, score and streak included.
\<close>

theorem answer_ignored:
  "(\<not> started s \<or> question_at (currentIndex s) = None \<or> pid \<in> answered s
      \<or> map_of (players s) pid = None
     \<longrightarrow> answer pid c s = s \<and> emitted (answer pid c s) = emitted s)
   \<and> answer pid c' (answer pid c s) = answer pid c s"
proof -
  let ?ignored = "\<not> started s \<or> question_at (currentIndex s) = None \<or> pid \<in> answered s
      \<or> map_of (players s) pid = None"
  have twice: "answer pid c' (answer pid c s) = answer pid c s"
  proof (cases ?ignored)
    case True
    then show ?thesis by (simp add: answer_noop)
  next
    case False
    then obtain q p where *: "started s" "question_at (currentIndex s) = Some q"
      "pid \<notin> answered s" "map_of (players s) pid = Some p"
      by auto
    have "pid \<in> answered (answer pid c s)"
      by (cases "c = answerIndex q") (simp_all add: answer_wrong[OF *] answer_right[OF *])
    then show ?thesis by (simp add: answer_noop)
  qed
  have "answer pid c s = s" if ?ignored
    using that by (rule answer_noop)
  with twice show ?thesis by simp
qed

text \<open>
  The theorem at a player who has answered, at an unknown player, at a room that is
  not started, and at a room whose index is set past the last question.
\<close>

theorem answer_ignored_witness:
  "''k3j9x0a'' \<in> answered answered_q1
   \<and> answer ''k3j9x0a'' 2 answered_q1 = answered_q1
   \<and> answer ''k3j9x0a'' 2 (answer ''k3j9x0a'' 1 warm) = answer ''k3j9x0a'' 1 warm
   \<and> map_of (players warm) ''nobody'' = None \<and> answer ''nobody'' 1 warm = warm
   \<and> \<not> started (new_room ''main'') \<and> answer ''k3j9x0a'' 1 (new_room ''main'') = new_room ''main''
   \<and> question_at (currentIndex (warm\<lparr>currentIndex := 5\<rparr>)) = None
   \<and> answer ''k3j9x0a'' 1 (warm\<lparr>currentIndex := 5\<rparr>) = warm\<lparr>currentIndex := 5\<rparr>"
proof -
  have h: "''k3j9x0a'' \<in> answered answered_q1" "map_of (players warm) ''nobody'' = None"
    "\<not> started (new_room ''main'')"
    "question_at (currentIndex (warm\<lparr>currentIndex := 5\<rparr>)) = None"
    by code_simp+
  from h answer_ignored[of answered_q1 "''k3j9x0a''" 2]
    answer_ignored[of warm "''k3j9x0a''" 1 2]
    answer_ignored[of warm "''nobody''" 1]
    answer_ignored[of "new_room ''main''" "''k3j9x0a''" 1]
    answer_ignored[of "warm\<lparr>currentIndex := 5\<rparr>" "''k3j9x0a''" 1]
  show ?thesis by blast
qed

subsection \<open>C7: next\<close>

text \<open>
  C7. When a question follows the current one, \<open>next()\<close> adds 1 to the index, sets the
  countdown to 20 and empties the answered-set, and the room stays started or stopped as
  it was. When the current question is the last, \<open>next()\<close> sets \<open>started\<close> to false,
  leaves the index where it is and cancels the timer of the room: the handle in
  \<open>interval\<close> is not running afterwards, and in a reachable room no timer is. The index
  never moves past the last question.
\<close>

theorem next_question:
  "(currentIndex s < int (length QUESTIONS) - 1 \<longrightarrow>
      currentIndex (nextQ s) = currentIndex s + 1 \<and> timeLeft (nextQ s) = 20
      \<and> answered (nextQ s) = {} \<and> started (nextQ s) = started s \<and> timers (nextQ s) = timers s)
   \<and> (currentIndex s = int (length QUESTIONS) - 1 \<longrightarrow>
      \<not> started (nextQ s) \<and> currentIndex (nextQ s) = currentIndex s
      \<and> (\<forall>h. interval s = Some h \<longrightarrow> h \<notin> timers (nextQ s)))
   \<and> (currentIndex s \<le> int (length QUESTIONS) - 1 \<longrightarrow>
      currentIndex (nextQ s) \<le> int (length QUESTIONS) - 1)
   \<and> (currentIndex (run es (new_room rid)) = int (length QUESTIONS) - 1 \<longrightarrow>
      timers (nextQ (run es (new_room rid))) = {})"
proof -
  have advance: "currentIndex (nextQ s) = currentIndex s + 1 \<and> timeLeft (nextQ s) = 20
      \<and> answered (nextQ s) = {} \<and> started (nextQ s) = started s \<and> timers (nextQ s) = timers s"
    if "currentIndex s < int (length QUESTIONS) - 1"
    using that by (simp add: nextQ_def)
  have finish: "\<not> started (nextQ t) \<and> currentIndex (nextQ t) = currentIndex t"
    if "currentIndex t = int (length QUESTIONS) - 1" for t
    using that by (simp add: nextQ_def)
  have cancel: "h \<notin> timers (nextQ s)"
    if "currentIndex s = int (length QUESTIONS) - 1" "interval s = Some h" for h
    using that by (simp add: nextQ_def clearIntervalIf_def)
  have bound: "currentIndex (nextQ s) \<le> int (length QUESTIONS) - 1"
    if "currentIndex s \<le> int (length QUESTIONS) - 1"
    using that by (simp add: nextQ_def)
  have "timer_ok (nextQ (run es (new_room rid)))"
    by (rule nextQ_timer_ok) (rule run_timer_ok)
  with finish[of "run es (new_room rid)"]
  have silent: "timers (nextQ (run es (new_room rid))) = {}"
    if "currentIndex (run es (new_room rid)) = int (length QUESTIONS) - 1"
    using that by (simp add: timer_ok_def)
  from advance finish[of s] cancel bound silent show ?thesis
    by blast
qed

text \<open>
  The theorem at the room \<open>warm\<close>, which is at the first question, and at the end of
  the run \<open>lap\<close>, which is at the last.
\<close>

theorem next_question_witness:
  "currentIndex warm < int (length QUESTIONS) - 1
   \<and> currentIndex (nextQ warm) = currentIndex warm + 1 \<and> timeLeft (nextQ warm) = 20
   \<and> answered (nextQ warm) = {} \<and> started (nextQ warm)
   \<and> currentIndex (nextQ warm) \<le> int (length QUESTIONS) - 1
   \<and> currentIndex (run lap (new_room ''main'')) = int (length QUESTIONS) - 1
   \<and> started (run lap (new_room ''main''))
   \<and> timers (run lap (new_room ''main'')) = {0}
   \<and> \<not> started (nextQ (run lap (new_room ''main'')))
   \<and> currentIndex (nextQ (run lap (new_room ''main''))) = currentIndex (run lap (new_room ''main''))
   \<and> timers (nextQ (run lap (new_room ''main''))) = {}"
proof -
  have h: "currentIndex warm < int (length QUESTIONS) - 1" "started warm"
    "currentIndex (run lap (new_room ''main'')) = int (length QUESTIONS) - 1"
    "started (run lap (new_room ''main''))"
    "timers (run lap (new_room ''main'')) = {0}"
    by code_simp+
  from h next_question[of warm lap "''main''"]
    next_question[of "run lap (new_room ''main'')" lap "''main''"]
  show ?thesis by simp
qed

subsection \<open>C8: an incorrect answer\<close>

text \<open>
  C8. In a started room with a current question, an answer of a known player who has
  not answered yet, with a choice index other than the correct one, sets the streak of
  that player to 0 and changes nothing else of the player: progress and score stay,
  whatever the streak was. All other players stay as they were, the player is added to
  the answered-set, and one snapshot, of the new state, is broadcast.
\<close>

theorem answer_incorrect:
  assumes "started s" and "question_at (currentIndex s) = Some q"
    and "map_of (players s) pid = Some p" and "pid \<notin> answered s" and "c \<noteq> answerIndex q"
  shows "map_of (players (answer pid c s)) pid = Some (p\<lparr>streak := 0\<rparr>)
    \<and> (\<forall>k. k \<noteq> pid \<longrightarrow> map_of (players (answer pid c s)) k = map_of (players s) k)
    \<and> answered (answer pid c s) = insert pid (answered s)
    \<and> emitted (answer pid c s) = emitted s @ [wire (answer pid c s)]
    \<and> finishedOrder (answer pid c s) = finishedOrder s
    \<and> started (answer pid c s) \<and> currentIndex (answer pid c s) = currentIndex s
    \<and> timeLeft (answer pid c s) = timeLeft s"
  using assms(1)
  by (simp add: answer_wrong[OF assms(1,2,4,3,5)] update_conv' wire_def)

text \<open>
  The theorem at the room \<open>at_q2\<close>, where the player has streak 1.
\<close>

theorem answer_incorrect_witness:
  "started at_q2 \<and> question_at (currentIndex at_q2) = Some (QUESTIONS ! 1)
   \<and> map_of (players at_q2) ''k3j9x0a'' = Some (snd (hd (players at_q2)))
   \<and> ''k3j9x0a'' \<notin> answered at_q2 \<and> 0 \<noteq> answerIndex (QUESTIONS ! 1)
   \<and> streak (snd (hd (players at_q2))) = 1
   \<and> map_of (players (answer ''k3j9x0a'' 0 at_q2)) ''k3j9x0a''
       = Some ((snd (hd (players at_q2)))\<lparr>streak := 0\<rparr>)
   \<and> answered (answer ''k3j9x0a'' 0 at_q2) = insert ''k3j9x0a'' (answered at_q2)
   \<and> emitted (answer ''k3j9x0a'' 0 at_q2) = emitted at_q2 @ [wire (answer ''k3j9x0a'' 0 at_q2)]"
proof -
  have h: "started at_q2" "question_at (currentIndex at_q2) = Some (QUESTIONS ! 1)"
    "map_of (players at_q2) ''k3j9x0a'' = Some (snd (hd (players at_q2)))"
    "''k3j9x0a'' \<notin> answered at_q2" "0 \<noteq> answerIndex (QUESTIONS ! 1)"
    by code_simp+
  have g: "streak (snd (hd (players at_q2))) = 1" by code_simp
  from answer_incorrect[OF h] h g show ?thesis by blast
qed

subsection \<open>C9: start twice\<close>

text \<open>
  C9. \<open>start()\<close> on a started room changes nothing: countdown, index, timer and the
  snapshots sent stay as they are. So two calls of \<open>start()\<close> in a row leave the state
  that one call leaves.
\<close>

theorem start_twice:
  "start (start s) = start s \<and> (started s \<longrightarrow> start s = s)"
  by (simp add: start_def emitState_def)

text \<open>
  The theorem at the started room \<open>warm\<close> and at a new room.
\<close>

theorem start_twice_witness:
  "started warm \<and> start warm = warm \<and> start (start (new_room ''main'')) = start (new_room ''main'')"
proof -
  have h: "started warm" by code_simp
  from h start_twice[of warm] start_twice[of "new_room ''main''"] show ?thesis by blast
qed

subsection \<open>C10: the question of a snapshot\<close>

text \<open>
  C10. In every reachable room state the index of the current question lies between 0
  and the number of questions minus 1, so the snapshot of the state carries the question
  at that index, and no snapshot sent so far carried \<open>null\<close> as its question.
\<close>

theorem question_never_null:
  "0 \<le> currentIndex (run es (new_room rid))
   \<and> currentIndex (run es (new_room rid)) \<le> int (length QUESTIONS) - 1
   \<and> question_w (wire (run es (new_room rid)))
       = Some (QUESTIONS ! nat (currentIndex (run es (new_room rid))))
   \<and> list_all (\<lambda>w. question_w w \<noteq> None) (emitted (run es (new_room rid)))"
  using run_index_ok[of es rid]
  by (simp add: index_ok_def wire_def question_at_Some)

text \<open>
  The theorem after the round of \<open>lap\<close> has ended by \<open>next()\<close> on the last question.
\<close>

theorem question_never_null_witness:
  "\<not> started (run (lap @ [Next]) (new_room ''main''))
   \<and> currentIndex (run (lap @ [Next]) (new_room ''main'')) = 4
   \<and> 0 \<le> currentIndex (run (lap @ [Next]) (new_room ''main''))
   \<and> currentIndex (run (lap @ [Next]) (new_room ''main'')) \<le> int (length QUESTIONS) - 1
   \<and> question_w (wire (run (lap @ [Next]) (new_room ''main''))) = Some (QUESTIONS ! 4)
   \<and> list_all (\<lambda>w. question_w w \<noteq> None) (emitted (run (lap @ [Next]) (new_room ''main'')))"
proof -
  have h: "\<not> started (run (lap @ [Next]) (new_room ''main''))"
    "currentIndex (run (lap @ [Next]) (new_room ''main'')) = 4"
    by code_simp+
  from question_never_null[of "lap @ [Next]" "''main''"] h show ?thesis by simp
qed

end
